theory Spec2Isabelle
  imports Complex_Main
begin

section \<open>Conventions of the embedding\<close>

text \<open>
  The three scripts of the repository are embedded function by function. Python's
  \<open>float\<close> values are modelled by exact rationals (\<^typ>\<open>rat\<close>): comparisons of floats are
  exact comparisons of the numbers they denote, and the arithmetic of the scripts (one
  subtraction, one product, one or two quotients) is taken without the rounding of the last
  binary digit. Python's \<open>int\<close> is \<^typ>\<open>int\<close>, a \<open>str\<close> is a \<^typ>\<open>string\<close>, and every
  \<open>print\<close> is recorded as a message of a datatype that keeps the printed values.
  Exceptions are values of a sum type. Operating-system failures of the file-system calls
  themselves (permissions, full disks) are outside the model.
\<close>

section \<open>Python string helpers\<close>

definition lower_char :: "char \<Rightarrow> char" where
  "lower_char c =
     (case map_of (zip ''ABCDEFGHIJKLMNOPQRSTUVWXYZ'' ''abcdefghijklmnopqrstuvwxyz'') c of
        Some l \<Rightarrow> l
      | None \<Rightarrow> c)"

text \<open>\<open>str.lower()\<close> on the ASCII letters; other bytes are left as they are.\<close>

definition py_lower :: "string \<Rightarrow> string" where
  "py_lower s = map lower_char s"

text \<open>\<open>s.endswith(suf)\<close> and its form with a tuple of suffixes.\<close>

definition endswith :: "string \<Rightarrow> string \<Rightarrow> bool" where
  "endswith s suf \<longleftrightarrow> length suf \<le> length s \<and> drop (length s - length suf) s = suf"

definition endswith_any :: "string \<Rightarrow> string list \<Rightarrow> bool" where
  "endswith_any s sufs \<longleftrightarrow> list_ex (endswith s) sufs"

text \<open>\<open>os.path.join(a, b)\<close> of \<open>posixpath\<close>, for two components.\<close>

definition path_join :: "string \<Rightarrow> string \<Rightarrow> string" where
  "path_join a b =
     (if b \<noteq> [] \<and> hd b = CHR ''/'' then b
      else if a = [] \<or> last a = CHR ''/'' then a @ b
      else a @ ''/'' @ b)"

section \<open>Numbers and strings of the Python standard library\<close>

text \<open>\<open>str(n)\<close> for a natural number: its decimal digits.\<close>

definition digit_char :: "nat \<Rightarrow> char" where
  "digit_char d = ''0123456789'' ! d"

fun str_nat :: "nat \<Rightarrow> string" where
  "str_nat n = (if n < 10 then [digit_char n] else str_nat (n div 10) @ [digit_char (n mod 10)])"

declare str_nat.simps [simp del]

definition str_int :: "int \<Rightarrow> string" where
  "str_int i = (if i < 0 then ''-'' @ str_nat (nat (- i)) else str_nat (nat i))"

text \<open>
  The format \<open>{i:0wd}\<close> of an f-string: the sign, then the digits filled with zeros on the
  left up to the width \<open>w\<close>; a longer number is not cut.
\<close>

definition format_0d :: "nat \<Rightarrow> int \<Rightarrow> string" where
  "format_0d width i =
     (let sign = (if i < 0 then ''-'' else []);
          ds = str_nat (nat \<bar>i\<bar>)
      in sign @ replicate (width - length sign - length ds) (CHR ''0'') @ ds)"

text \<open>The value of a string of decimal digits, and \<open>str.isdigit\<close> on ASCII.\<close>

definition digit_val :: "char \<Rightarrow> nat" where
  "digit_val c =
     (case map_of (zip ''0123456789'' [0, 1, 2, 3, 4, 5, 6, 7, 8, 9]) c of
        Some d \<Rightarrow> d
      | None \<Rightarrow> 0)"

definition is_digit :: "char \<Rightarrow> bool" where
  "is_digit c \<longleftrightarrow> c \<in> set ''0123456789''"

definition nat_of_digits :: "string \<Rightarrow> nat" where
  "nat_of_digits ds = foldl (\<lambda>acc c. 10 * acc + digit_val c) 0 ds"

text \<open>
  \<open>s.strip()\<close>: the white space at both ends is taken away. These are the ASCII characters
  for which \<open>str.isspace\<close> holds.
\<close>

definition is_space :: "char \<Rightarrow> bool" where
  "is_space c \<longleftrightarrow>
     c \<in> set [CHR '' '', CHR 0x09, CHR 0x0A, CHR 0x0B, CHR 0x0C, CHR 0x0D,
              CHR 0x1C, CHR 0x1D, CHR 0x1E, CHR 0x1F]"

definition py_strip :: "string \<Rightarrow> string" where
  "py_strip s = rev (dropWhile is_space (rev (dropWhile is_space s)))"

text \<open>\<open>s.split(sep)\<close> for a separator of one character.\<close>

fun py_split :: "char \<Rightarrow> string \<Rightarrow> string list" where
  "py_split sep [] = [[]]"
| "py_split sep (c # cs) =
     (if c = sep then [] # py_split sep cs
      else (c # hd (py_split sep cs)) # tl (py_split sep cs))"

text \<open>\<open>s.replace(a, b)\<close> for single characters.\<close>

definition py_replace :: "char \<Rightarrow> char \<Rightarrow> string \<Rightarrow> string" where
  "py_replace a b s = map (\<lambda>c. if c = a then b else c) s"

datatype py_error =
    CalledProcessError int "string list"
  | ValueError
  | ZeroDivisionError
  | FileNotFoundError string
  | ShutilError string

text \<open>
  \<open>float(s)\<close> on the decimal literals without exponent: white space around, an optional
  sign, digits with an optional point. These are the strings the rate probe prints; the
  other spellings Python accepts (exponents, \<open>inf\<close>, \<open>nan\<close>, underscores) are not modelled and
  are answered like a malformed string.
\<close>

definition py_float :: "string \<Rightarrow> py_error + rat" where
  "py_float s =
     (let t = py_strip s;
          negative = (t \<noteq> [] \<and> hd t = CHR ''-'');
          u = (if t \<noteq> [] \<and> (hd t = CHR ''-'' \<or> hd t = CHR ''+'') then tl t else t);
          int_part = takeWhile (\<lambda>c. c \<noteq> CHR ''.'') u;
          frac_part = drop 1 (dropWhile (\<lambda>c. c \<noteq> CHR ''.'') u)
      in if (int_part = [] \<and> frac_part = [])
            \<or> \<not> list_all is_digit int_part \<or> \<not> list_all is_digit frac_part
         then Inl ValueError
         else
           (let magnitude = of_nat (nat_of_digits int_part)
                  + of_nat (nat_of_digits frac_part) / 10 ^ length frac_part
            in Inr (if negative then - magnitude else magnitude)))"

text \<open>
  \<open>os.path.splitext\<close> of \<open>posixpath\<close>: the extension starts at the last dot of the last
  component, unless only dots stand before it in that component.
\<close>

definition rfind :: "char \<Rightarrow> string \<Rightarrow> int" where
  "rfind c s =
     (if c \<in> set s then int (length s) - 1 - int (length (takeWhile (\<lambda>x. x \<noteq> c) (rev s)))
      else - 1)"

definition splitext :: "string \<Rightarrow> string \<times> string" where
  "splitext p =
     (let sepIndex = rfind (CHR ''/'') p;
          dotIndex = rfind (CHR ''.'') p
      in if dotIndex > sepIndex
            \<and> list_ex (\<lambda>c. c \<noteq> CHR ''.'') (take (nat (dotIndex - (sepIndex + 1)))
                  (drop (nat (sepIndex + 1)) p))
         then (take (nat dotIndex) p, drop (nat dotIndex) p)
         else (p, []))"



text \<open>
  A \<open>datetime\<close> value and the two renderings the scripts use. \<open>strftime\<close> knows the six
  directives that occur in the scripts' formats.
\<close>

record datetime =
  year :: nat
  month :: nat
  day :: nat
  hour :: nat
  minute :: nat
  second :: nat
  microsecond :: nat

definition directive :: "char \<Rightarrow> datetime \<Rightarrow> string" where
  "directive c d =
     (if c = CHR ''Y'' then format_0d 4 (int (year d))
      else if c = CHR ''m'' then format_0d 2 (int (month d))
      else if c = CHR ''d'' then format_0d 2 (int (day d))
      else if c = CHR ''H'' then format_0d 2 (int (hour d))
      else if c = CHR ''M'' then format_0d 2 (int (minute d))
      else if c = CHR ''S'' then format_0d 2 (int (second d))
      else [CHR ''%'', c])"

fun strftime :: "string \<Rightarrow> datetime \<Rightarrow> string" where
  "strftime [] d = []"
| "strftime [c] d = [c]"
| "strftime (c # e # rest) d =
     (if c = CHR ''%'' then directive e d @ strftime rest d else c # strftime (e # rest) d)"

declare strftime.simps [simp del]




section \<open>The quality filter: \<open>remove_unwanted_scenes.py\<close>\<close>

subsection \<open>Configuration constants\<close>

definition CONF_THRESHOLD :: rat where
  "CONF_THRESHOLD = 6 / 10"

definition MIN_PLAYERS :: nat where
  "MIN_PLAYERS = 4"

definition MAX_BBOX_HEIGHT_RATIO :: rat where
  "MAX_BBOX_HEIGHT_RATIO = 1 / 3"

subsection \<open>Data\<close>

text \<open>
  A frame is an image array; only its first dimension (the pixel height, \<open>frame.shape[0]\<close>)
  is read by the script, the pixels are what the detector looks at.
\<close>

datatype frame = Frame (shape0: nat) (pixels: "nat list")

type_synonym xyxy = "rat \<times> rat \<times> rat \<times> rat"

text \<open>
  One element of the detector's output: \<open>result.boxes\<close>, as the list of the pairs
  \<open>(boxes.conf[i], boxes.xyxy[i])\<close> for \<open>i\<close> in \<open>range(len(boxes))\<close>.
\<close>

type_synonym boxes = "(rat \<times> xyxy) list"

type_synonym yolo = "frame \<Rightarrow> boxes list"

record detection =
  bbox :: xyxy
  conf :: rat

text \<open>
  What \<open>cv2.VideoCapture(path)\<close> gives for a file: whether it opened, the value of
  \<open>CAP_PROP_FRAME_COUNT\<close>, and the result of \<open>read()\<close> after seeking to a frame index
  (\<open>None\<close> when \<open>ret\<close> is false).
\<close>

record capture =
  isOpened :: bool
  frame_count :: rat
  read_at :: "int \<Rightarrow> frame option"

text \<open>
  The part of the world the filter touches: the video files by path, and the directories
  with their listings (\<open>os.path.isdir\<close>, \<open>os.listdir\<close>).
\<close>

record gate_world =
  videos :: "string \<rightharpoonup> capture"
  listings :: "string \<rightharpoonup> string list"

datatype gate_msg =
    Warn_unable_to_read string
  | Info_not_enough_players nat nat
  | Info_bbox_too_large rat rat nat
  | Info_kept string
  | Error_not_a_directory string
  | Info_processed_deleted nat nat
  | Warn_no_video_files string

subsection \<open>Functions\<close>

text \<open>\<open>int(x)\<close> of a float: truncation towards zero.\<close>

definition py_int_of_float :: "rat \<Rightarrow> int" where
  "py_int_of_float x = (if 0 \<le> x then \<lfloor>x\<rfloor> else \<lceil>x\<rceil>)"

definition get_middle_frame :: "gate_world \<Rightarrow> string \<Rightarrow> (frame \<times> nat) option" where
  "get_middle_frame w video_path =
     (case videos w video_path of
        None \<Rightarrow> None
      | Some cap \<Rightarrow>
          if \<not> isOpened cap then None
          else
            (let total_frames = py_int_of_float (frame_count cap);
                 mid_frame_index = total_frames div 2
             in case read_at cap mid_frame_index of
                  None \<Rightarrow> None
                | Some frame \<Rightarrow> Some (frame, shape0 frame)))"

text \<open>The inner loop of \<open>run_detection\<close> over one \<open>result.boxes\<close>, appending to \<open>detections\<close>.\<close>

fun boxes_loop :: "boxes \<Rightarrow> detection list \<Rightarrow> detection list" where
  "boxes_loop [] detections = detections"
| "boxes_loop ((c, b) # rest) detections =
     (if c < CONF_THRESHOLD then boxes_loop rest detections
      else boxes_loop rest (detections @ [\<lparr>bbox = b, conf = c\<rparr>]))"

fun results_loop :: "boxes list \<Rightarrow> detection list \<Rightarrow> detection list" where
  "results_loop [] detections = detections"
| "results_loop (result # rest) detections = results_loop rest (boxes_loop result detections)"

definition run_detection :: "yolo \<Rightarrow> frame \<Rightarrow> detection list" where
  "run_detection model frame = results_loop (model frame) []"

text \<open>The loop of \<open>check_criteria\<close> over the detections; it returns at the first large box.\<close>

fun bbox_loop :: "detection list \<Rightarrow> nat \<Rightarrow> bool \<times> gate_msg list" where
  "bbox_loop [] frame_height = (True, [])"
| "bbox_loop (det # rest) frame_height =
     (case bbox det of (x1, y1, x2, y2) \<Rightarrow>
        if y2 - y1 \<ge> of_nat frame_height * MAX_BBOX_HEIGHT_RATIO
        then (False,
              [Info_bbox_too_large (y2 - y1) (of_nat frame_height * MAX_BBOX_HEIGHT_RATIO)
                 frame_height])
        else bbox_loop rest frame_height)"

definition check_criteria :: "detection list \<Rightarrow> nat \<Rightarrow> bool \<times> gate_msg list" where
  "check_criteria detections frame_height =
     (if length detections < MIN_PLAYERS
      then (False, [Info_not_enough_players (length detections) MIN_PLAYERS])
      else bbox_loop detections frame_height)"

text \<open>
  \<open>process_video\<close> returns its boolean, the world after it (\<open>os.remove\<close> takes the file
  away) and what it printed.
\<close>

definition process_video ::
  "yolo \<Rightarrow> string \<Rightarrow> gate_world \<Rightarrow> bool \<times> gate_world \<times> gate_msg list" where
  "process_video model video_path w =
     (case get_middle_frame w video_path of
        None \<Rightarrow> (False, w, [Warn_unable_to_read video_path])
      | Some (frame, frame_height) \<Rightarrow>
          (let detections = run_detection model frame;
               (ok, printed) = check_criteria detections frame_height
           in if \<not> ok
              then (False, w\<lparr>videos := (videos w)(video_path := None)\<rparr>, printed)
              else (True, w, printed @ [Info_kept video_path])))"

definition video_extensions :: "string list" where
  "video_extensions = [''.mp4'', ''.avi'', ''.mov'', ''.mkv'', ''.webm'']"

text \<open>
  The loop of \<open>main\<close> over the listing, with the two counters, the world and the output
  so far.
\<close>

fun gate_loop ::
  "yolo \<Rightarrow> string \<Rightarrow> string list \<Rightarrow> nat \<times> nat \<times> gate_world \<times> gate_msg list \<Rightarrow>
   nat \<times> nat \<times> gate_world \<times> gate_msg list" where
  "gate_loop model folder_path [] acc = acc"
| "gate_loop model folder_path (filename # rest) (num_processed, num_deleted, w, out) =
     (if \<not> endswith_any (py_lower filename) video_extensions
      then gate_loop model folder_path rest (num_processed, num_deleted, w, out)
      else
        (let video_path = path_join folder_path filename;
             (result, w', printed) = process_video model video_path w
         in gate_loop model folder_path rest
              (num_processed + 1, (if result then num_deleted + 1 else num_deleted),
               w', out @ printed)))"

text \<open>\<open>main\<close> with the loaded detector; it returns the world it leaves and its output.\<close>

definition gate_main :: "string \<Rightarrow> yolo \<Rightarrow> gate_world \<Rightarrow> gate_world \<times> gate_msg list" where
  "gate_main folder_path model w =
     (case listings w folder_path of
        None \<Rightarrow> (w, [Error_not_a_directory folder_path])
      | Some listing \<Rightarrow>
          (let (num_processed, num_deleted, w', out) =
                 gate_loop model folder_path listing (0, 0, w, []);
               out' = out @ [Info_processed_deleted num_processed num_deleted]
           in if num_processed = 0 then (w', out' @ [Warn_no_video_files folder_path])
              else (w', out')))"

subsection \<open>The acceptance rule in the specification's words\<close>

text \<open>
  The qualifying detections of a detector output are those whose confidence is at least
  0.6; a clip is accepted when there are at least four of them and none is as tall as a
  third of the frame.
\<close>

definition qualifying :: "boxes list \<Rightarrow> (rat \<times> xyxy) list" where
  "qualifying results = filter (\<lambda>(c, b). c \<ge> 6 / 10) (concat results)"

definition bbox_height :: "xyxy \<Rightarrow> rat" where
  "bbox_height b = (case b of (x1, y1, x2, y2) \<Rightarrow> y2 - y1)"

definition gate_accepts :: "boxes list \<Rightarrow> nat \<Rightarrow> bool" where
  "gate_accepts results frame_height \<longleftrightarrow>
     length (qualifying results) \<ge> 4 \<and>
     (\<forall>(c, b) \<in> set (qualifying results). \<not> bbox_height b \<ge> of_nat frame_height / 3)"

text \<open>The three terminal states of a clip in the filter.\<close>

datatype verdict = Unreadable | Kept | Deleted

definition clip_verdict :: "yolo \<Rightarrow> gate_world \<Rightarrow> string \<Rightarrow> verdict" where
  "clip_verdict model w video_path =
     (case get_middle_frame w video_path of
        None \<Rightarrow> Unreadable
      | Some (frame, frame_height) \<Rightarrow>
          if fst (check_criteria (run_detection model frame) frame_height) then Kept
          else Deleted)"

definition is_video_name :: "string \<Rightarrow> bool" where
  "is_video_name filename \<longleftrightarrow> endswith_any (py_lower filename) video_extensions"

text \<open>The video files of a listing that end in a given state.\<close>

definition videos_with ::
  "verdict \<Rightarrow> yolo \<Rightarrow> gate_world \<Rightarrow> string \<Rightarrow> string list \<Rightarrow> string list" where
  "videos_with v model w folder listing =
     filter (\<lambda>f. is_video_name f \<and> clip_verdict model w (path_join folder f) = v) listing"

definition is_summary :: "gate_msg \<Rightarrow> bool" where
  "is_summary m = (case m of Info_processed_deleted a b \<Rightarrow> True | _ \<Rightarrow> False)"

subsection \<open>A small folder of clips\<close>

definition demo_frame :: frame where
  "demo_frame = Frame 1080 [0]"

definition demo_boxes :: boxes where
  "demo_boxes =
     [(9 / 10, (0, 0, 50, 100)), (8 / 10, (100, 10, 150, 200)), (59 / 100, (5, 5, 9, 9)),
      (6 / 10, (300, 0, 350, 359)), (7 / 10, (500, 500, 560, 700))]"

definition demo_yolo :: yolo where
  "demo_yolo f = (if pixels f = [0] then [demo_boxes] else [take 3 demo_boxes])"

definition demo_gate_world :: gate_world where
  "demo_gate_world =
     \<lparr>videos =
        [''clips/a.mp4'' \<mapsto>
           \<lparr>isOpened = True, frame_count = 301,
            read_at = (\<lambda>i. if i = 150 then Some demo_frame else None)\<rparr>,
         ''clips/b.MOV'' \<mapsto>
           \<lparr>isOpened = True, frame_count = 10, read_at = (\<lambda>i. Some (Frame 720 [1]))\<rparr>,
         ''clips/c.mkv'' \<mapsto>
           \<lparr>isOpened = False, frame_count = 0, read_at = (\<lambda>i. None)\<rparr>],
      listings = [''clips'' \<mapsto> [''a.mp4'', ''b.MOV'', ''c.mkv'', ''notes.txt'']]\<rparr>"

section \<open>The world of the two converters\<close>

text \<open>
  JSON documents as Python builds them: a \<open>dict\<close> is the list of its items in insertion
  order, which is the order \<open>json.dump\<close> writes them in.
\<close>

datatype json =
    JString string
  | JInt int
  | JFloat rat
  | JBool bool
  | JList "json list"
  | JObject "(string \<times> json) list"

text \<open>\<open>d[k]\<close> on a document that is a \<open>dict\<close>.\<close>

definition json_get :: "json \<Rightarrow> string \<Rightarrow> json option" where
  "json_get j k = (case j of JObject items \<Rightarrow> map_of items k | _ \<Rightarrow> None)"

text \<open>The file system: the directories that exist, and the regular files with their bytes.\<close>

record fsys =
  dirs :: "string set"
  files :: "string \<rightharpoonup> string"

text \<open>
  What the scripts take from outside. An external command is given by its argument vector
  and answers with its exit status, its standard output and the files it wrote;
  \<open>glob.glob\<close>, \<open>os.listdir\<close> and the serialisation of \<open>json.dump(_, indent=4)\<close> are library
  functions of the file system or of the document; the clocks are read in sequence, the
  \<open>n\<close>-th reading being \<open>now n\<close> and \<open>time_time n\<close>.
\<close>

record env =
  subprocess_run :: "string list \<Rightarrow> fsys \<Rightarrow> int \<times> string \<times> (string \<times> string) list"
  glob_glob :: "fsys \<Rightarrow> string \<Rightarrow> string list"
  listdir :: "fsys \<Rightarrow> string \<Rightarrow> string list"
  json_dumps :: "json \<Rightarrow> string"
  now :: "nat \<Rightarrow> datetime"
  time_time :: "nat \<Rightarrow> rat"

datatype conv_msg =
    Processing_video string
  | Detected_FPS rat
  | Frames_extracted_to string
  | Total_frames_extracted int
  | Creating_labels
  | Labels_created string
  | Moved_video_to string
  | Processing_completed
  | All_videos_processed
  | Run_information_written string

text \<open>The state a converter runs in: the file system, what was printed, the clock readings made.\<close>

record conv_state =
  fs :: fsys
  console :: "conv_msg list"
  ticks :: nat

definition py_print :: "conv_msg \<Rightarrow> conv_state \<Rightarrow> conv_state" where
  "py_print m s = s\<lparr>console := console s @ [m]\<rparr>"

text \<open>\<open>os.makedirs(path, exist_ok=True)\<close>: the directory and the directories above it.\<close>

definition ancestors :: "string \<Rightarrow> string list" where
  "ancestors path = map (\<lambda>i. take i path) (filter (\<lambda>i. path ! i = CHR ''/'') [1..<length path])"

definition makedirs :: "string \<Rightarrow> conv_state \<Rightarrow> conv_state" where
  "makedirs path s =
     s\<lparr>fs := (fs s)\<lparr>dirs := dirs (fs s) \<union> set (ancestors path) \<union> {path}\<rparr>\<rparr>"

text \<open>Writing a file: \<open>open(path, 'w')\<close> followed by the write of all the bytes.\<close>

definition write_file :: "string \<Rightarrow> string \<Rightarrow> fsys \<Rightarrow> fsys" where
  "write_file path bytes f = f\<lparr>files := (files f)(path \<mapsto> bytes)\<rparr>"

fun write_files :: "(string \<times> string) list \<Rightarrow> fsys \<Rightarrow> fsys" where
  "write_files [] f = f"
| "write_files ((path, bytes) # rest) f = write_files rest (write_file path bytes f)"

text \<open>
  \<open>subprocess.run(cmd, ..., check=True)\<close>: the files the command wrote are there whatever
  its exit status; a status other than zero raises \<open>CalledProcessError\<close>.
\<close>

definition run_checked :: "env \<Rightarrow> string list \<Rightarrow> conv_state \<Rightarrow> (py_error + string) \<times> conv_state" where
  "run_checked E cmd s =
     (case subprocess_run E cmd (fs s) of
        (returncode, stdout, written) \<Rightarrow>
          (let s' = s\<lparr>fs := write_files written (fs s)\<rparr>
           in if returncode \<noteq> 0 then (Inl (CalledProcessError returncode cmd), s')
              else (Inr stdout, s')))"

text \<open>\<open>datetime.datetime.now()\<close> and \<open>time.time()\<close>: the next reading of the clock.\<close>

definition datetime_now :: "env \<Rightarrow> conv_state \<Rightarrow> datetime \<times> conv_state" where
  "datetime_now E s = (now E (ticks s), s\<lparr>ticks := Suc (ticks s)\<rparr>)"



section \<open>The directory converter: \<open>format_mp4_dir.py\<close>\<close>

definition get_video_fps :: "env \<Rightarrow> string \<Rightarrow> conv_state \<Rightarrow> (py_error + rat) \<times> conv_state" where
  "get_video_fps E video_path s =
     (let cmd = [''ffprobe'', ''-v'', ''error'', ''-select_streams'', ''v:0'',
                 ''-show_entries'', ''stream=r_frame_rate'',
                 ''-of'', ''default=noprint_wrappers=1:nokey=1'', video_path]
      in case run_checked E cmd s of
           (Inl e, s') \<Rightarrow> (Inl e, s')
         | (Inr stdout, s') \<Rightarrow>
             (let raw_rate = py_strip stdout
              in if CHR ''/'' \<in> set raw_rate
                 then
                   (case py_split (CHR ''/'') raw_rate of
                      [top_s, bottom_s] \<Rightarrow>
                        (case py_float top_s of
                           Inl e \<Rightarrow> (Inl e, s')
                         | Inr t \<Rightarrow>
                             (case py_float bottom_s of
                                Inl e \<Rightarrow> (Inl e, s')
                              | Inr b \<Rightarrow>
                                  if b = 0 then (Inl ZeroDivisionError, s')
                                  else (Inr (t / b), s')))
                    | _ \<Rightarrow> (Inl ValueError, s'))
                 else
                   (case py_float raw_rate of
                      Inl e \<Rightarrow> (Inl e, s')
                    | Inr r \<Rightarrow> (Inr r, s'))))"

definition extract_frames ::
  "env \<Rightarrow> string \<Rightarrow> string \<Rightarrow> conv_state \<Rightarrow> (py_error + unit) \<times> conv_state" where
  "extract_frames E video_path output_folder s =
     (let s1 = makedirs output_folder s;
          cmd = [''ffmpeg'', ''-i'', video_path, ''-vf'', ''scale=1920:1080'',
                 ''-qscale:v'', ''2'', ''-start_number'', ''1'', ''-vsync'', ''0'',
                 path_join output_folder ''%06d.jpg'']
      in case run_checked E cmd s1 of
           (Inl e, s2) \<Rightarrow> (Inl e, s2)
         | (Inr stdout, s2) \<Rightarrow> (Inr (), s2))"

definition get_frame_count :: "env \<Rightarrow> string \<Rightarrow> conv_state \<Rightarrow> int" where
  "get_frame_count E folder_path s =
     int (length (glob_glob E (fs s) (path_join folder_path ''*.jpg'')))"

text \<open>The dictionary appended for frame \<open>i\<close>, and the loop over \<open>range(1, total_frames + 1)\<close>.\<close>

definition image_entry :: "int \<Rightarrow> json" where
  "image_entry i =
     (let file_name = format_0d 6 i @ ''.jpg'';
          image_id_str = format_0d 9 i
      in JObject
           [(''is_labeled'', JBool False),
            (''image_id'', JString image_id_str),
            (''file_name'', JString file_name),
            (''height'', JInt 1080),
            (''width'', JInt 1920)])"

fun images_loop :: "int list \<Rightarrow> json list \<Rightarrow> json list" where
  "images_loop [] images_list = images_list"
| "images_loop (i # rest) images_list = images_loop rest (images_list @ [image_entry i])"

text \<open>The document \<open>data\<close> that \<open>create_labels_json\<close> builds.\<close>

definition labels_data :: "string \<Rightarrow> rat \<Rightarrow> int \<Rightarrow> json" where
  "labels_data video_name frame_rate total_frames =
     (let duration_ms =
            (if frame_rate > 0
             then py_int_of_float ((of_int total_frames / frame_rate) * 1000) else 0);
          info_block = JObject
            [(''version'', JString ''1.3''),
             (''name'', JString video_name),
             (''im_dir'', JString ''img1''),
             (''frame_rate'', JFloat frame_rate),
             (''seq_length'', JInt total_frames),
             (''im_ext'', JString ''.jpg''),
             (''clip_start'', JString ''0''),
             (''clip_stop'', JString (str_int duration_ms))];
          images_list = images_loop [1..total_frames] [];
          annotations_list = [];
          categories_list = []
      in JObject
           [(''info'', info_block),
            (''images'', JList images_list),
            (''annotations'', JList annotations_list),
            (''categories'', JList categories_list)])"

definition create_labels_json ::
  "env \<Rightarrow> string \<Rightarrow> rat \<Rightarrow> int \<Rightarrow> string \<Rightarrow> conv_state \<Rightarrow> conv_state" where
  "create_labels_json E video_name frame_rate total_frames output_file s =
     s\<lparr>fs := write_file output_file
                (json_dumps E (labels_data video_name frame_rate total_frames)) (fs s)\<rparr>"

definition mp4_extensions :: "string list" where
  "mp4_extensions = [''.mp4'', ''.webm'']"

text \<open>The body of the loop of \<open>main\<close> for a file that is a video.\<close>

definition mp4_clip ::
  "env \<Rightarrow> string \<Rightarrow> string \<Rightarrow> string \<Rightarrow> conv_state \<Rightarrow> (py_error + unit) \<times> conv_state" where
  "mp4_clip E input_dir output_dir file_name s0 =
     (let base_name = fst (splitext file_name);
          base_name_sanitized = py_lower (py_replace (CHR '' '') (CHR ''-'') base_name);
          (dt, s1) = datetime_now E s0;
          timestamp = strftime ''%Y%m%d-%H%M%S'' dt;
          new_folder_name = base_name_sanitized @ ''-'' @ timestamp;
          new_folder_path = path_join output_dir new_folder_name;
          train_dir = path_join new_folder_path ''train'';
          video_dir = path_join train_dir ''video1'';
          img_dir = path_join video_dir ''img1'';
          s2 = makedirs img_dir (makedirs train_dir (makedirs new_folder_path s1));
          video_path = path_join input_dir file_name;
          s3 = py_print (Processing_video video_path) s2
      in case get_video_fps E video_path s3 of
           (Inl e, s4) \<Rightarrow> (Inl e, s4)
         | (Inr fps, s4) \<Rightarrow>
             (let s5 = py_print (Detected_FPS fps) s4
              in case extract_frames E video_path img_dir s5 of
                   (Inl e, s6) \<Rightarrow> (Inl e, s6)
                 | (Inr u, s6) \<Rightarrow>
                     (let s7 = py_print (Frames_extracted_to img_dir) s6;
                          total_frames = get_frame_count E img_dir s7;
                          s8 = py_print Creating_labels
                                 (py_print (Total_frames_extracted total_frames) s7);
                          json_path = path_join video_dir ''Labels-GameState.json'';
                          s9 = create_labels_json E base_name_sanitized fps total_frames
                                 json_path s8
                      in (Inr (), py_print (Labels_created json_path) s9))))"

fun mp4_loop ::
  "env \<Rightarrow> string \<Rightarrow> string \<Rightarrow> string list \<Rightarrow> conv_state \<Rightarrow> (py_error + unit) \<times> conv_state" where
  "mp4_loop E input_dir output_dir [] s = (Inr (), s)"
| "mp4_loop E input_dir output_dir (file_name # rest) s =
     (if endswith_any (py_lower file_name) mp4_extensions
      then
        (case mp4_clip E input_dir output_dir file_name s of
           (Inl e, s') \<Rightarrow> (Inl e, s')
         | (Inr u, s') \<Rightarrow> mp4_loop E input_dir output_dir rest s')
      else mp4_loop E input_dir output_dir rest s)"

definition mp4_main ::
  "env \<Rightarrow> string \<Rightarrow> string \<Rightarrow> conv_state \<Rightarrow> (py_error + unit) \<times> conv_state" where
  "mp4_main E input_dir output_dir s =
     (let s1 = makedirs output_dir s
      in case mp4_loop E input_dir output_dir (listdir E (fs s1) input_dir) s1 of
           (Inl e, s2) \<Rightarrow> (Inl e, s2)
         | (Inr u, s2) \<Rightarrow> (Inr (), py_print Processing_completed s2))"

section \<open>The run converter: \<open>format_to_soccernet.py\<close>\<close>











section \<open>Notions used to state the properties of the converters\<close>



definition string_field :: "string \<Rightarrow> json \<Rightarrow> string" where
  "string_field k entry = (case json_get entry k of Some (JString s) \<Rightarrow> s | _ \<Rightarrow> [])"



text \<open>The two command lines, as \<open>get_video_fps\<close> and \<open>extract_frames\<close> build them.\<close>

definition probe_cmd :: "string \<Rightarrow> string list" where
  "probe_cmd video_path =
     [''ffprobe'', ''-v'', ''error'', ''-select_streams'', ''v:0'',
      ''-show_entries'', ''stream=r_frame_rate'',
      ''-of'', ''default=noprint_wrappers=1:nokey=1'', video_path]"

definition raster_cmd :: "string \<Rightarrow> string \<Rightarrow> string list" where
  "raster_cmd video_path output_folder =
     [''ffmpeg'', ''-i'', video_path, ''-vf'', ''scale=1920:1080'',
      ''-qscale:v'', ''2'', ''-start_number'', ''1'', ''-vsync'', ''0'',
      path_join output_folder ''%06d.jpg'']"



text \<open>The sanitised base name of a file, and the directory \<open>main\<close> of the directory
  converter makes for a clip.\<close>

definition sanitized :: "string \<Rightarrow> string" where
  "sanitized file_name = py_lower (py_replace (CHR '' '') (CHR ''-'') (fst (splitext file_name)))"

definition mp4_root :: "env \<Rightarrow> string \<Rightarrow> string \<Rightarrow> conv_state \<Rightarrow> string" where
  "mp4_root E output_dir file_name s =
     path_join output_dir
       (sanitized file_name @ ''-'' @ strftime ''%Y%m%d-%H%M%S'' (now E (ticks s)))"

subsection \<open>A small world for the converters\<close>

text \<open>
  The probe fails on \<open>in/broken.mp4\<close>, prints \<open>25\<close> for \<open>in/short.webm\<close> and \<open>30000/1001\<close> for
  every other file; the rasteriser writes one frame of \<open>in/short.webm\<close> and fails, and two
  frames of any other file.
\<close>

definition demo_run :: "string list \<Rightarrow> fsys \<Rightarrow> int \<times> string \<times> (string \<times> string) list" where
  "demo_run cmd f =
     (if hd cmd = ''ffprobe''
      then (if last cmd = ''in/broken.mp4'' then (1, [], [])
            else if last cmd = ''in/short.webm'' then (0, ''25'' @ [CHR 0x0A], [])
            else (0, ''30000/1001'' @ [CHR 0x0A], []))
      else
        (let pattern = last cmd;
             folder = take (length pattern - 8) pattern
         in if cmd ! 2 = ''in/short.webm''
            then (1, [], [(folder @ ''000001.jpg'', ''frame 1'')])
            else (0, [], [(folder @ ''000001.jpg'', ''frame 1''),
                          (folder @ ''000002.jpg'', ''frame 2'')])))"

definition demo_glob :: "fsys \<Rightarrow> string \<Rightarrow> string list" where
  "demo_glob f pattern =
     filter (\<lambda>p. files f p \<noteq> None)
       (map (\<lambda>i. take (length pattern - 5) pattern @ format_0d 6 i @ ''.jpg'') [1, 2, 3])"

definition demo_dumps :: "json \<Rightarrow> string" where
  "demo_dumps j =
     (case json_get j ''info'' of
        Some info \<Rightarrow> ''labels of '' @ string_field ''name'' info
      | None \<Rightarrow> ''report'')"

definition demo_now :: "nat \<Rightarrow> datetime" where
  "demo_now n =
     \<lparr>year = 2025, month = 1, day = 2, hour = 3, minute = 4, second = 5 + n, microsecond = 0\<rparr>"

definition demo_env :: "string list \<Rightarrow> env" where
  "demo_env listing =
     \<lparr>subprocess_run = demo_run, glob_glob = demo_glob, listdir = (\<lambda>f d. listing),
      json_dumps = demo_dumps, now = demo_now, time_time = (\<lambda>n. of_nat n)\<rparr>"

definition demo_state :: conv_state where
  "demo_state =
     \<lparr>fs = \<lparr>dirs = {''in''},
             files = [''in/Match One.MP4'' \<mapsto> ''video 1'', ''in/broken.mp4'' \<mapsto> ''video 2'',
                      ''in/short.webm'' \<mapsto> ''video 3'']\<rparr>,
      console = [], ticks = 0\<rparr>"

section \<open>Properties of the quality filter\<close>

subsection \<open>The detection loops and the acceptance rule\<close>

lemma boxes_loop_eq:
  "boxes_loop bs acc =
     acc @ map (\<lambda>(c, b). \<lparr>bbox = b, conf = c\<rparr>) (filter (\<lambda>(c, b). c \<ge> 6 / 10) bs)"
  by (induction bs acc rule: boxes_loop.induct) (auto simp: CONF_THRESHOLD_def)

lemma results_loop_eq:
  "results_loop rs acc =
     acc @ map (\<lambda>(c, b). \<lparr>bbox = b, conf = c\<rparr>)
             (filter (\<lambda>(c, b). c \<ge> 6 / 10) (concat rs))"
  by (induction rs acc rule: results_loop.induct) (auto simp: boxes_loop_eq)

lemma run_detection_eq:
  "run_detection model frame =
     map (\<lambda>(c, b). \<lparr>bbox = b, conf = c\<rparr>) (qualifying (model frame))"
  by (simp add: run_detection_def results_loop_eq qualifying_def)

lemma bbox_loop_fst:
  "fst (bbox_loop ds h) \<longleftrightarrow> (\<forall>d \<in> set ds. \<not> bbox_height (bbox d) \<ge> of_nat h / 3)"
  by (induction ds h rule: bbox_loop.induct)
     (auto simp: bbox_height_def MAX_BBOX_HEIGHT_RATIO_def split: prod.splits)

lemma check_criteria_fst:
  "fst (check_criteria ds h) \<longleftrightarrow>
     length ds \<ge> 4 \<and> (\<forall>d \<in> set ds. \<not> bbox_height (bbox d) \<ge> of_nat h / 3)"
  by (auto simp: check_criteria_def MIN_PLAYERS_def bbox_loop_fst)

lemma check_run_detection:
  "fst (check_criteria (run_detection model frame) h) \<longleftrightarrow> gate_accepts (model frame) h"
  by (auto simp: check_criteria_fst run_detection_eq gate_accepts_def split: prod.splits)

lemma run_detection_drop_low:
  assumes c0: "c0 < 6 / 10"
  shows "run_detection (\<lambda>f. map (filter (\<lambda>(c, b). c \<noteq> c0)) (model f)) frame
       = run_detection model frame"
proof -
  have "filter (\<lambda>(c, b). c \<ge> 6 / 10) (concat (map (filter (\<lambda>(c, b). c \<noteq> c0)) rs))
      = filter (\<lambda>(c, b). c \<ge> 6 / 10) (concat rs)" for rs :: "boxes list"
  proof (induction rs)
    case Nil
    then show ?case by simp
  next
    case (Cons r rs)
    have "filter (\<lambda>(c, b). c \<ge> 6 / 10) (filter (\<lambda>(c, b). c \<noteq> c0) r)
        = filter (\<lambda>(c, b). c \<ge> 6 / 10) r"
      using c0 by (induction r) auto
    with Cons show ?case by simp
  qed
  then show ?thesis by (simp add: run_detection_eq qualifying_def)
qed

lemma process_video_verdict:
  "fst (process_video model p w) = (clip_verdict model w p = Kept)"
  "fst (snd (process_video model p w)) =
     (if clip_verdict model w p = Deleted then w\<lparr>videos := (videos w)(p := None)\<rparr> else w)"
  by (auto simp: process_video_def clip_verdict_def Let_def split: option.splits prod.splits)

lemmas demo_gate_defs = process_video_def get_middle_frame_def run_detection_def
  check_criteria_def py_int_of_float_def CONF_THRESHOLD_def MIN_PLAYERS_def
  MAX_BBOX_HEIGHT_RATIO_def demo_gate_world_def demo_yolo_def demo_boxes_def demo_frame_def

text \<open>
  C1. For a clip whose middle frame was read, \<open>process_video\<close> answers \<open>True\<close>, and leaves
  the file in place, exactly when the detector's output has at least four detections of
  confidence at least 0.6 and none of these is as tall as a third of the frame height. The
  detections handed to \<open>check_criteria\<close> are exactly the qualifying ones, and taking the
  detections of confidence 0.59 out of the detector's output changes nothing.
\<close>

theorem quality_gate_accept_iff:
  assumes "get_middle_frame w video_path = Some (frame, frame_height)"
  shows "(fst (process_video model video_path w) \<longleftrightarrow> gate_accepts (model frame) frame_height)
       \<and> (videos (fst (snd (process_video model video_path w))) video_path \<noteq> None
            \<longleftrightarrow> gate_accepts (model frame) frame_height)
       \<and> (fst (check_criteria (run_detection model frame) frame_height)
            \<longleftrightarrow> gate_accepts (model frame) frame_height)
       \<and> run_detection model frame =
           map (\<lambda>(c, b). \<lparr>bbox = b, conf = c\<rparr>) (qualifying (model frame))
       \<and> run_detection (\<lambda>f. map (filter (\<lambda>(c, b). c \<noteq> 59 / 100)) (model f)) frame
           = run_detection model frame"
proof -
  have present: "videos w video_path \<noteq> None"
    using assms by (auto simp: get_middle_frame_def split: option.splits)
  have v: "clip_verdict model w video_path =
             (if gate_accepts (model frame) frame_height then Kept else Deleted)"
    using assms by (simp add: clip_verdict_def check_run_detection)
  have "fst (process_video model video_path w) \<longleftrightarrow> gate_accepts (model frame) frame_height"
    by (simp add: process_video_verdict v)
  moreover have "videos (fst (snd (process_video model video_path w))) video_path \<noteq> None
            \<longleftrightarrow> gate_accepts (model frame) frame_height"
    using present by (simp add: process_video_verdict v)
  moreover have "run_detection (\<lambda>f. map (filter (\<lambda>(c, b). c \<noteq> 59 / 100)) (model f)) frame
           = run_detection model frame"
    by (rule run_detection_drop_low) simp
  ultimately show ?thesis
    using check_run_detection[of model frame frame_height] run_detection_eq[of model frame]
    by blast
qed

theorem quality_gate_accept_iff_witness:
  "get_middle_frame demo_gate_world ''clips/a.mp4'' = Some (demo_frame, 1080)
   \<and> gate_accepts (demo_yolo demo_frame) 1080
   \<and> fst (process_video demo_yolo ''clips/a.mp4'' demo_gate_world)
   \<and> length (run_detection demo_yolo demo_frame) = 4"
proof -
  have h: "get_middle_frame demo_gate_world ''clips/a.mp4'' = Some (demo_frame, 1080)"
    by (simp add: demo_gate_defs)
  have a: "gate_accepts (demo_yolo demo_frame) 1080"
    by (simp add: gate_accepts_def qualifying_def bbox_height_def demo_yolo_def demo_boxes_def
        demo_frame_def)
  have q: "length (qualifying (demo_yolo demo_frame)) = 4"
    by (simp add: qualifying_def demo_yolo_def demo_boxes_def demo_frame_def)
  from quality_gate_accept_iff[OF h, of demo_yolo] a q h show ?thesis
    by simp
qed

subsection \<open>Unreadable clips\<close>

text \<open>
  C4. When the clip does not open, or the read of its middle frame fails, \<open>process_video\<close>
  prints the warning, answers \<open>False\<close> and leaves the world as it was: the file is still
  there, and its state is \<open>Unreadable\<close>.
\<close>

theorem unreadable_clip_stays:
  assumes "videos w video_path = Some cap"
    and "\<not> isOpened cap \<or> read_at cap (py_int_of_float (frame_count cap) div 2) = None"
  shows "process_video model video_path w = (False, w, [Warn_unable_to_read video_path])
       \<and> clip_verdict model w video_path = Unreadable
       \<and> videos (fst (snd (process_video model video_path w))) video_path = Some cap"
  using assms
  by (auto simp: process_video_def clip_verdict_def get_middle_frame_def Let_def)

theorem unreadable_clip_stays_witness:
  "videos demo_gate_world ''clips/c.mkv'' \<noteq> None
   \<and> clip_verdict demo_yolo demo_gate_world ''clips/c.mkv'' = Unreadable
   \<and> fst (process_video demo_yolo ''clips/c.mkv'' demo_gate_world) = False
   \<and> videos (fst (snd (process_video demo_yolo ''clips/c.mkv'' demo_gate_world))) ''clips/c.mkv''
       \<noteq> None"
  using unreadable_clip_stays[of demo_gate_world "''clips/c.mkv''"
      "\<lparr>isOpened = False, frame_count = 0, read_at = (\<lambda>i. None)\<rparr>" demo_yolo]
  by (simp add: demo_gate_world_def)

subsection \<open>The counters of the batch loop\<close>

lemma clip_verdict_cong:
  "videos w p = videos w' p \<Longrightarrow> clip_verdict model w p = clip_verdict model w' p"
  by (simp add: clip_verdict_def get_middle_frame_def)

lemma process_video_no_summary:
  "filter is_summary (snd (snd (process_video model p w))) = []"
proof -
  have b: "filter is_summary (snd (bbox_loop ds h)) = []" for ds h
    by (induction ds h rule: bbox_loop.induct) (auto simp: is_summary_def split: prod.splits)
  have c: "filter is_summary (snd (check_criteria ds h)) = []" for ds h
    by (simp add: check_criteria_def b is_summary_def)
  show ?thesis
  proof (cases "get_middle_frame w p")
    case None
    then show ?thesis by (simp add: process_video_def is_summary_def)
  next
    case (Some fh)
    obtain f h where fh: "fh = (f, h)" by (cases fh) auto
    obtain ok pr where ck: "check_criteria (run_detection model f) h = (ok, pr)"
      by (cases "check_criteria (run_detection model f) h") auto
    have "filter is_summary pr = []" using c[of "run_detection model f" h] ck by simp
    then show ?thesis using Some fh ck
      by (simp add: process_video_def Let_def is_summary_def)
  qed
qed

lemma gate_loop_step:
  "gate_loop model folder (filename # rest) (np, nd, w, out) =
     (if \<not> is_video_name filename
      then gate_loop model folder rest (np, nd, w, out)
      else
        (case process_video model (path_join folder filename) w of
           (result, w', printed) \<Rightarrow>
             gate_loop model folder rest
               (np + 1, (if result then nd + 1 else nd), w', out @ printed)))"
  by (simp add: is_video_name_def Let_def)

lemma path_join_inj:
  assumes f: "CHR ''/'' \<notin> set f" and g: "CHR ''/'' \<notin> set g"
    and e: "path_join d f = path_join d g"
  shows "f = g"
proof -
  define pre where "pre = (if d = [] \<or> last d = CHR ''/'' then d else d @ ''/'')"
  have "path_join d x = pre @ x" if "CHR ''/'' \<notin> set x" for x
    using that by (cases x) (auto simp: path_join_def pre_def)
  with f g e show "f = g" by simp
qed

lemma gate_loop_verdicts:
  assumes "distinct listing" "\<forall>f \<in> set listing. CHR ''/'' \<notin> set f"
  shows "\<exists>w' printed.
     gate_loop model folder listing (np, nd, w, out) =
       (np + length (filter is_video_name listing),
        nd + length (videos_with Kept model w folder listing),
        w', out @ printed) \<and>
     filter is_summary printed = [] \<and>
     (\<forall>q. videos w' q =
        (if q \<in> path_join folder ` set (videos_with Deleted model w folder listing) then None
         else videos w q))"
  using assms
proof (induction listing arbitrary: np nd w out)
  case Nil
  then show ?case by (simp add: videos_with_def)
next
  case (Cons f rest)
  have d: "distinct rest" and s: "\<forall>g \<in> set rest. CHR ''/'' \<notin> set g" and fr: "f \<notin> set rest"
    and fs: "CHR ''/'' \<notin> set f"
    using Cons.prems by auto
  show ?case
  proof (cases "is_video_name f")
    case False
    from Cons.IH[OF d s, of np nd w out] False show ?thesis
      by (simp add: gate_loop_step videos_with_def del: gate_loop.simps)
  next
    case True
    define p where "p = path_join folder f"
    define v where "v = clip_verdict model w p"
    define w1 where "w1 = (if v = Deleted then w\<lparr>videos := (videos w)(p := None)\<rparr> else w)"
    obtain pr where pv: "process_video model p w = (v = Kept, w1, pr)"
      using process_video_verdict[of model p w]
      by (cases "process_video model p w") (auto simp: v_def w1_def)
    have pr: "filter is_summary pr = []"
      using process_video_no_summary[of model p w] pv by simp
    have other: "path_join folder g \<noteq> p" if "g \<in> set rest" for g
    proof -
      have "g \<noteq> f" using that fr by auto
      moreover have "CHR ''/'' \<notin> set g" using that s by auto
      ultimately show ?thesis using path_join_inj[of g f folder] fs by (auto simp: p_def)
    qed
    have same: "clip_verdict model w1 (path_join folder g)
              = clip_verdict model w (path_join folder g)" if "g \<in> set rest" for g
      using other[OF that] by (intro clip_verdict_cong) (simp add: w1_def)
    have filt: "videos_with u model w1 folder rest = videos_with u model w folder rest" for u
      unfolding videos_with_def by (rule filter_cong) (auto simp: same)
    from Cons.IH[OF d s, of "np + 1" "if v = Kept then nd + 1 else nd" w1 "out @ pr"]
    obtain w' printed where IH:
      "gate_loop model folder rest (np + 1, (if v = Kept then nd + 1 else nd), w1, out @ pr) =
       (np + 1 + length (filter is_video_name rest),
        (if v = Kept then nd + 1 else nd) + length (videos_with Kept model w folder rest),
        w', (out @ pr) @ printed)"
      "filter is_summary printed = []"
      "\<forall>q. videos w' q =
        (if q \<in> path_join folder ` set (videos_with Deleted model w folder rest) then None
         else videos w1 q)"
      unfolding filt by blast
    have vw: "videos_with u model w folder (f # rest) =
              (if v = u then f # videos_with u model w folder rest
               else videos_with u model w folder rest)" for u
      using True by (simp add: videos_with_def v_def p_def)
    have "gate_loop model folder (f # rest) (np, nd, w, out) =
       (np + length (filter is_video_name (f # rest)),
        nd + length (videos_with Kept model w folder (f # rest)),
        w', out @ (pr @ printed))"
    proof -
      have "gate_loop model folder (f # rest) (np, nd, w, out) =
            gate_loop model folder rest
              (np + 1, (if v = Kept then nd + 1 else nd), w1, out @ pr)"
        using True pv unfolding gate_loop_step p_def by simp
      also note IH(1)
      finally show ?thesis
        using True by (simp add: vw)
    qed
    moreover have "filter is_summary (pr @ printed) = []"
      using pr IH(2) by simp
    moreover have "\<forall>q. videos w' q =
        (if q \<in> path_join folder ` set (videos_with Deleted model w folder (f # rest)) then None
         else videos w q)"
      using IH(3) by (auto simp: vw w1_def p_def)
    ultimately show ?thesis by blast
  qed
qed

lemma videos_with_partition:
  "length (filter is_video_name listing) =
     length (videos_with Kept model w folder listing) +
     length (videos_with Deleted model w folder listing) +
     length (videos_with Unreadable model w folder listing)"
proof (induction listing)
  case Nil
  then show ?case by (simp add: videos_with_def)
next
  case (Cons f rest)
  then show ?case
    by (cases "clip_verdict model w (path_join folder f)") (simp_all add: videos_with_def)
qed

text \<open>
  C10. The run prints one summary line. Its second number, printed as the number of deleted
  videos, is the number of video files of the listing that were kept (those for which
  \<open>process_video\<close> answered \<open>True\<close>); the first is the number of kept, deleted and unreadable
  videos together. The files that are gone after the run are those of the deleted videos.
  The names of a directory listing are distinct and contain no slash.
\<close>

theorem deleted_counter_counts_kept:
  assumes "listings w folder = Some listing"
    and "distinct listing"
    and "\<forall>f \<in> set listing. CHR ''/'' \<notin> set f"
  shows "filter is_summary (snd (gate_main folder model w)) =
           [Info_processed_deleted
              (length (videos_with Kept model w folder listing) +
               length (videos_with Deleted model w folder listing) +
               length (videos_with Unreadable model w folder listing))
              (length (videos_with Kept model w folder listing))]
       \<and> videos_with Kept model w folder listing =
           filter (\<lambda>f. is_video_name f \<and> fst (process_video model (path_join folder f) w))
             listing
       \<and> (\<forall>q. videos (fst (gate_main folder model w)) q =
             (if q \<in> path_join folder ` set (videos_with Deleted model w folder listing)
              then None else videos w q))"
proof -
  from gate_loop_verdicts[OF assms(2,3), of model folder 0 0 w "[]"]
  obtain w' printed where L:
    "gate_loop model folder listing (0, 0, w, []) =
       (length (filter is_video_name listing),
        length (videos_with Kept model w folder listing), w', printed)"
    "filter is_summary printed = []"
    "\<forall>q. videos w' q =
        (if q \<in> path_join folder ` set (videos_with Deleted model w folder listing) then None
         else videos w q)"
    by auto
  have K: "videos_with Kept model w folder listing =
           filter (\<lambda>f. is_video_name f \<and> fst (process_video model (path_join folder f) w))
             listing"
    by (simp add: videos_with_def process_video_verdict)
  show ?thesis
    using assms(1) L videos_with_partition[of listing model w folder] K
    by (auto simp: gate_main_def is_summary_def Let_def)
qed

lemma demo_gate_verdicts:
  "clip_verdict demo_yolo demo_gate_world ''clips/a.mp4'' = Kept"
  "clip_verdict demo_yolo demo_gate_world ''clips/b.MOV'' = Deleted"
  "clip_verdict demo_yolo demo_gate_world ''clips/c.mkv'' = Unreadable"
  by (simp_all add: clip_verdict_def demo_gate_defs)

lemma demo_gate_names:
  "is_video_name ''a.mp4''" "is_video_name ''b.MOV''" "is_video_name ''c.mkv''"
  "\<not> is_video_name ''notes.txt''"
  by (simp_all add: is_video_name_def endswith_any_def endswith_def py_lower_def
      lower_char_def video_extensions_def)

theorem deleted_counter_counts_kept_witness:
  "filter is_summary (snd (gate_main ''clips'' demo_yolo demo_gate_world)) =
     [Info_processed_deleted 3 1]
   \<and> videos (fst (gate_main ''clips'' demo_yolo demo_gate_world)) ''clips/a.mp4'' \<noteq> None
   \<and> videos (fst (gate_main ''clips'' demo_yolo demo_gate_world)) ''clips/b.MOV'' = None
   \<and> videos (fst (gate_main ''clips'' demo_yolo demo_gate_world)) ''clips/c.mkv'' \<noteq> None"
proof -
  have l: "listings demo_gate_world ''clips'' = Some [''a.mp4'', ''b.MOV'', ''c.mkv'', ''notes.txt'']"
    by (simp add: demo_gate_world_def)
  have d: "distinct [''a.mp4'', ''b.MOV'', ''c.mkv'', ''notes.txt'']"
    by simp
  have s: "\<forall>f \<in> set [''a.mp4'', ''b.MOV'', ''c.mkv'', ''notes.txt'']. CHR ''/'' \<notin> set f"
    by simp
  have j: "path_join ''clips'' ''a.mp4'' = ''clips/a.mp4''"
    "path_join ''clips'' ''b.MOV'' = ''clips/b.MOV''"
    "path_join ''clips'' ''c.mkv'' = ''clips/c.mkv''"
    by (simp_all add: path_join_def)
  have v: "videos demo_gate_world ''clips/a.mp4'' \<noteq> None"
    "videos demo_gate_world ''clips/c.mkv'' \<noteq> None"
    by (simp_all add: demo_gate_world_def)
  from deleted_counter_counts_kept[OF l d s, of demo_yolo] v show ?thesis
    by (simp add: videos_with_def j demo_gate_verdicts demo_gate_names)
qed

section \<open>Properties of the metadata builder\<close>

subsection \<open>Decimal digits\<close>

lemma digit_char_props:
  assumes "d < 10"
  shows "digit_val (digit_char d) = d" and "is_digit (digit_char d)"
proof -
  from assms consider "d = 0" | "d = 1" | "d = 2" | "d = 3" | "d = 4" | "d = 5" | "d = 6"
    | "d = 7" | "d = 8" | "d = 9"
    by atomize_elim arith
  then have "digit_val (digit_char d) = d \<and> is_digit (digit_char d)"
    by cases (simp_all add: digit_val_def digit_char_def is_digit_def)
  then show "digit_val (digit_char d) = d" and "is_digit (digit_char d)"
    by simp_all
qed

lemma is_digit_other:
  assumes "is_digit c"
  shows "\<not> is_space c" "c \<noteq> CHR ''-''" "c \<noteq> CHR ''+''" "c \<noteq> CHR ''.''" "c \<noteq> CHR ''/''"
  using assms by (auto simp: is_digit_def is_space_def)

lemma nat_of_digits_snoc:
  "nat_of_digits (ds @ [c]) = 10 * nat_of_digits ds + digit_val c"
  by (simp add: nat_of_digits_def)

lemma str_nat_digits: "str_nat n \<noteq> [] \<and> list_all is_digit (str_nat n)"
proof (induction n rule: str_nat.induct)
  case (1 n)
  show ?case
  proof (cases "n < 10")
    case True
    then show ?thesis by (simp add: str_nat.simps[of n] digit_char_props)
  next
    case False
    then have "n mod 10 < 10" by simp
    with False 1 show ?thesis by (simp add: str_nat.simps[of n] digit_char_props)
  qed
qed

lemma nat_of_digits_str_nat: "nat_of_digits (str_nat n) = n"
proof (induction n rule: str_nat.induct)
  case (1 n)
  show ?case
  proof (cases "n < 10")
    case True
    then show ?thesis
      by (simp add: str_nat.simps[of n] nat_of_digits_def digit_char_props)
  next
    case False
    have "n mod 10 < 10" by simp
    with False 1 show ?thesis
      by (simp add: str_nat.simps[of n] nat_of_digits_snoc digit_char_props)
  qed
qed

lemma nat_of_digits_zeros: "nat_of_digits (replicate k (CHR ''0'') @ ds) = nat_of_digits ds"
proof -
  have "foldl (\<lambda>acc c. 10 * acc + digit_val c) 0 (replicate k (CHR ''0'')) = 0"
    by (induction k) (simp_all add: digit_val_def)
  then show ?thesis by (simp add: nat_of_digits_def)
qed

lemma is_digit_zeros: "list_all is_digit (replicate k (CHR ''0''))"
  by (induction k) (simp_all add: is_digit_def)

lemma format_0d_nonneg:
  assumes "0 \<le> i"
  shows "nat_of_digits (format_0d w i) = nat i" and "list_all is_digit (format_0d w i)"
    and "format_0d w i \<noteq> []"
  using assms str_nat_digits[of "nat i"]
  by (simp_all add: format_0d_def Let_def nat_of_digits_zeros nat_of_digits_str_nat
      is_digit_zeros)


text \<open>Rules for evaluating the renderings of given numbers (never of a variable).\<close>

lemma replicate_numeral_eval: "replicate (numeral k) x = x # replicate (pred_numeral k) x"
  by (simp add: numeral_eq_Suc)

lemmas digits_eval = digit_char_def str_nat.simps str_int_def format_0d_def
  replicate_numeral_eval

subsection \<open>The list of images\<close>






subsection \<open>The duration\<close>







subsection \<open>Determinism\<close>

text \<open>
  C6. The bytes \<open>create_labels_json\<close> writes are those of the document of the name, the rate
  and the count: they are the same from any state and to any path. Writing a second time
  changes nothing, and apart from the one file nothing of the state changes.
\<close>

theorem create_labels_json_deterministic:
  "files (fs (create_labels_json E name rate n out s)) out =
     Some (json_dumps E (labels_data name rate n))
   \<and> files (fs (create_labels_json E name rate n out s)) out =
       files (fs (create_labels_json E name rate n out' s')) out'
   \<and> create_labels_json E name rate n out (create_labels_json E name rate n out s) =
       create_labels_json E name rate n out s
   \<and> (files (fs (create_labels_json E name rate n out s)))(out := None) =
       (files (fs s))(out := None)
   \<and> dirs (fs (create_labels_json E name rate n out s)) = dirs (fs s)
   \<and> console (create_labels_json E name rate n out s) = console s
   \<and> ticks (create_labels_json E name rate n out s) = ticks s"
  by (simp add: create_labels_json_def write_file_def)

subsection \<open>The two scripts have the same four functions\<close>





section \<open>Properties of the rate prober\<close>

lemma dropWhile_none: "\<forall>c \<in> set s. \<not> P c \<Longrightarrow> dropWhile P s = s"
  by (cases s) simp_all

lemma py_strip_digits:
  assumes "\<forall>c \<in> set s. is_digit c"
  shows "py_strip s = s"
proof -
  have "\<forall>c \<in> set s. \<not> is_space c" using assms is_digit_other(1) by blast
  then show ?thesis by (simp add: py_strip_def dropWhile_none)
qed

lemma py_float_digits:
  assumes d: "\<forall>c \<in> set s. is_digit c" and ne: "s \<noteq> []"
  shows "py_float s = Inr (of_nat (nat_of_digits s))"
proof -
  have hd: "hd s \<noteq> CHR ''-''" "hd s \<noteq> CHR ''+''"
    using d ne is_digit_other(2,3)[of "hd s"] by auto
  have nodot: "\<forall>c \<in> set s. c \<noteq> CHR ''.''"
    using d is_digit_other(4) by blast
  have tw: "takeWhile (\<lambda>c. c \<noteq> CHR ''.'') s = s"
    using nodot by simp
  have dw: "dropWhile (\<lambda>c. c \<noteq> CHR ''.'') s = []"
    using nodot by simp
  show ?thesis
    using d ne hd
    by (simp add: py_float_def py_strip_digits Let_def tw dw list_all_iff nat_of_digits_def)
qed

lemma py_float_str_nat: "py_float (str_nat n) = Inr (of_nat n)"
  using py_float_digits[of "str_nat n"] str_nat_digits[of n]
  by (simp add: list_all_iff nat_of_digits_str_nat)

lemma py_split_no_sep: "sep \<notin> set s \<Longrightarrow> py_split sep s = [s]"
  by (induction s) auto

lemma py_split_one_sep:
  "sep \<notin> set a \<Longrightarrow> sep \<notin> set b \<Longrightarrow> py_split sep (a @ sep # b) = [a, b]"
  by (induction a) (auto simp: py_split_no_sep)

lemma str_nat_no_slash: "CHR ''/'' \<notin> set (str_nat n)"
  using str_nat_digits[of n] is_digit_other(5) by (auto simp: list_all_iff)

lemma get_video_fps_probe_cmd:
  "get_video_fps E video_path s =
     (case run_checked E (probe_cmd video_path) s of
        (Inl e, s') \<Rightarrow> (Inl e, s')
      | (Inr stdout, s') \<Rightarrow>
          (let raw_rate = py_strip stdout
           in if CHR ''/'' \<in> set raw_rate
              then
                (case py_split (CHR ''/'') raw_rate of
                   [top_s, bottom_s] \<Rightarrow>
                     (case py_float top_s of
                        Inl e \<Rightarrow> (Inl e, s')
                      | Inr t \<Rightarrow>
                          (case py_float bottom_s of
                             Inl e \<Rightarrow> (Inl e, s')
                           | Inr b \<Rightarrow>
                               if b = 0 then (Inl ZeroDivisionError, s')
                               else (Inr (t / b), s')))
                 | _ \<Rightarrow> (Inl ValueError, s'))
              else
                (case py_float raw_rate of
                   Inl e \<Rightarrow> (Inl e, s')
                 | Inr r \<Rightarrow> (Inr r, s'))))"
  by (simp add: get_video_fps_def probe_cmd_def)

lemma get_video_fps_of_ratio:
  assumes run: "\<And>f. subprocess_run E (probe_cmd vp) f = (0, out, written)"
    and D: "0 < D"
    and r: "py_strip out = str_nat N @ ''/'' @ str_nat D"
  shows "fst (get_video_fps E vp s) = Inr (of_nat N / of_nat D)"
proof -
  have sp: "py_split (CHR ''/'') (py_strip out) = [str_nat N, str_nat D]"
    unfolding r using py_split_one_sep[OF str_nat_no_slash str_nat_no_slash, of N D] by simp
  have sl: "CHR ''/'' \<in> set (py_strip out)" unfolding r by simp
  show ?thesis
    using run[of "fs s"] D sl
    by (simp add: get_video_fps_probe_cmd run_checked_def Let_def sp py_float_str_nat)
qed


lemma demo_probe:
  "subprocess_run (demo_env l) (probe_cmd ''in/Match One.MP4'') f =
     (0, ''30000/1001'' @ [CHR 0x0A], [])"
  "subprocess_run (demo_env l) (probe_cmd ''in/short.webm'') f = (0, ''25'' @ [CHR 0x0A], [])"
  "subprocess_run (demo_env l) (probe_cmd ''in/broken.mp4'') f = (1, [], [])"
  by (simp_all add: demo_env_def demo_run_def probe_cmd_def)


section \<open>Properties of the two batch loops\<close>

subsection \<open>What each step changes\<close>

lemma write_files_dirs: "dirs (write_files ws f) = dirs f"
  by (induction ws f rule: write_files.induct) (simp_all add: write_file_def)

lemma run_checked_frame:
  "console (snd (run_checked E cmd s)) = console s"
  "ticks (snd (run_checked E cmd s)) = ticks s"
  "dirs (fs (snd (run_checked E cmd s))) = dirs (fs s)"
  by (simp_all add: run_checked_def Let_def write_files_dirs split: prod.splits)

lemma run_checked_fst:
  "fst (run_checked E cmd s) =
     (if fst (subprocess_run E cmd (fs s)) \<noteq> 0
      then Inl (CalledProcessError (fst (subprocess_run E cmd (fs s))) cmd)
      else Inr (fst (snd (subprocess_run E cmd (fs s)))))"
  by (simp add: run_checked_def Let_def split: prod.splits)

lemma get_video_fps_snd:
  "snd (get_video_fps E vp s) = snd (run_checked E (probe_cmd vp) s)"
  by (simp add: get_video_fps_probe_cmd Let_def split: prod.splits sum.splits list.splits)


lemma extract_frames_raster_cmd:
  "extract_frames E vp folder s =
     (case run_checked E (raster_cmd vp folder) (makedirs folder s) of
        (Inl e, s2) \<Rightarrow> (Inl e, s2)
      | (Inr stdout, s2) \<Rightarrow> (Inr (), s2))"
  by (simp add: extract_frames_def raster_cmd_def Let_def)

lemma extract_frames_snd:
  "snd (extract_frames E vp folder s) = snd (run_checked E (raster_cmd vp folder) (makedirs folder s))"
  by (simp add: extract_frames_raster_cmd split: prod.splits sum.splits)

lemma extract_frames_fst:
  "fst (extract_frames E vp folder s) =
     (if fst (subprocess_run E (raster_cmd vp folder) (fs (makedirs folder s))) \<noteq> 0
      then Inl (CalledProcessError
                  (fst (subprocess_run E (raster_cmd vp folder) (fs (makedirs folder s))))
                  (raster_cmd vp folder))
      else Inr ())"
proof -
  obtain r t where rt: "run_checked E (raster_cmd vp folder) (makedirs folder s) = (r, t)"
    by (cases "run_checked E (raster_cmd vp folder) (makedirs folder s)") auto
  have r: "r = (if fst (subprocess_run E (raster_cmd vp folder) (fs (makedirs folder s))) \<noteq> 0
      then Inl (CalledProcessError
                  (fst (subprocess_run E (raster_cmd vp folder) (fs (makedirs folder s))))
                  (raster_cmd vp folder))
      else Inr (fst (snd (subprocess_run E (raster_cmd vp folder) (fs (makedirs folder s))))))"
    using rt run_checked_fst[of E "raster_cmd vp folder" "makedirs folder s"] by simp
  show ?thesis
    unfolding extract_frames_raster_cmd rt using r by (cases r) (simp_all split: if_splits)
qed

lemma makedirs_frame:
  "console (makedirs p s) = console s" "ticks (makedirs p s) = ticks s"
  "files (fs (makedirs p s)) = files (fs s)"
  "dirs (fs (makedirs p s)) = dirs (fs s) \<union> set (ancestors p) \<union> {p}"
  by (simp_all add: makedirs_def)

lemma py_print_frame:
  "console (py_print m s) = console s @ [m]" "ticks (py_print m s) = ticks s"
  "fs (py_print m s) = fs s"
  by (simp_all add: py_print_def)

lemma create_labels_json_frame:
  "console (create_labels_json E n r t p s) = console s"
  "ticks (create_labels_json E n r t p s) = ticks s"
  "dirs (fs (create_labels_json E n r t p s)) = dirs (fs s)"
  "files (fs (create_labels_json E n r t p s)) p = Some (json_dumps E (labels_data n r t))"
  by (simp_all add: create_labels_json_def write_file_def)

lemmas conv_frame = run_checked_frame get_video_fps_snd extract_frames_snd makedirs_frame
  py_print_frame create_labels_json_frame



lemma extract_frames_pair:
  assumes "extract_frames E vp folder s = (r, t)"
  shows "console t = console s" "ticks t = ticks s"
    "dirs (fs t) = dirs (fs s) \<union> set (ancestors folder) \<union> {folder}"
  using assms extract_frames_snd[of E vp folder s]
  by (simp_all add: run_checked_frame makedirs_frame)


lemma mp4_clip_dirs:
  "dirs (fs (snd (mp4_clip E i o' f s))) =
     dirs (fs s)
     \<union> set (ancestors (mp4_root E o' f s)) \<union> {mp4_root E o' f s}
     \<union> set (ancestors (path_join (mp4_root E o' f s) ''train''))
     \<union> {path_join (mp4_root E o' f s) ''train''}
     \<union> set (ancestors (path_join (path_join (path_join (mp4_root E o' f s) ''train'')
           ''video1'') ''img1''))
     \<union> {path_join (path_join (path_join (mp4_root E o' f s) ''train'') ''video1'') ''img1''}"
  by (simp add: mp4_clip_def Let_def datetime_now_def case_prod_beta conv_frame
        mp4_root_def sanitized_def Un_ac split: sum.splits)

subsection \<open>The body of the loop\<close>

lemma mp4_clip_success:
  assumes "mp4_clip E i o' f s = (Inr (), s')"
  shows "\<exists>fps n.
      files (fs s') (path_join (path_join (path_join (mp4_root E o' f s) ''train'') ''video1'')
                      ''Labels-GameState.json'')
        = Some (json_dumps E (labels_data (sanitized f) fps n))
    \<and> console s' = console s @
        [Processing_video (path_join i f), Detected_FPS fps,
         Frames_extracted_to
           (path_join (path_join (path_join (mp4_root E o' f s) ''train'') ''video1'') ''img1''),
         Total_frames_extracted n, Creating_labels,
         Labels_created
           (path_join (path_join (path_join (mp4_root E o' f s) ''train'') ''video1'')
              ''Labels-GameState.json'')]"
  using assms
  by (auto simp: mp4_clip_def Let_def datetime_now_def case_prod_beta conv_frame
        mp4_root_def sanitized_def split: sum.splits)

lemma mp4_clip_ok:
  assumes "\<And>t. fst (get_video_fps E (path_join i f) t) = Inr fps"
    and "\<And>t folder. fst (extract_frames E (path_join i f) folder t) = Inr ()"
  shows "fst (mp4_clip E i o' f s) = Inr ()"
  using assms
  by (simp add: mp4_clip_def Let_def datetime_now_def case_prod_beta split: sum.splits)









subsection \<open>The directories of a clip\<close>

lemma path_join_ends: "b \<noteq> [] \<Longrightarrow> path_join a b \<noteq> [] \<and> last (path_join a b) = last b"
  by (simp add: path_join_def)

lemma strftime_compact_last:
  "strftime ''%Y%m%d-%H%M%S'' d \<noteq> [] \<and> last (strftime ''%Y%m%d-%H%M%S'' d) \<noteq> CHR ''/''"
proof -
  have ne: "format_0d 2 (int (second d)) \<noteq> []"
    and dg: "list_all is_digit (format_0d 2 (int (second d)))"
    by (simp_all add: format_0d_nonneg)
  then have "is_digit (last (format_0d 2 (int (second d))))"
    by (simp add: list_all_iff)
  then have l: "last (format_0d 2 (int (second d))) \<noteq> CHR ''/''"
    using is_digit_other(5) by blast
  show ?thesis
    using ne l by (simp add: strftime.simps directive_def)
qed

lemma mp4_root_ends: "mp4_root E o' f s \<noteq> [] \<and> last (mp4_root E o' f s) \<noteq> CHR ''/''"
proof -
  let ?ts = "strftime ''%Y%m%d-%H%M%S'' (now E (ticks s))"
  have "sanitized f @ ''-'' @ ?ts \<noteq> []" by simp
  moreover have "last (sanitized f @ ''-'' @ ?ts) = last ?ts"
    using strftime_compact_last[of "now E (ticks s)"] by simp
  ultimately show ?thesis
    using path_join_ends[of "sanitized f @ ''-'' @ ?ts" o'] strftime_compact_last[of "now E (ticks s)"]
    by (simp add: mp4_root_def)
qed

lemma mp4_paths:
  "path_join (mp4_root E o' f s) ''train'' = mp4_root E o' f s @ ''/train''"
  "path_join (mp4_root E o' f s @ ''/train'') ''video1'' = mp4_root E o' f s @ ''/train/video1''"
  "path_join (mp4_root E o' f s @ ''/train/video1'') ''img1''
     = mp4_root E o' f s @ ''/train/video1/img1''"
  "path_join (mp4_root E o' f s @ ''/train/video1'') ''Labels-GameState.json''
     = mp4_root E o' f s @ ''/train/video1/Labels-GameState.json''"
  using mp4_root_ends[of E o' f s] by (simp_all add: path_join_def)

lemma ancestors_prefix:
  assumes "a \<noteq> []"
  shows "a \<in> set (ancestors (a @ CHR ''/'' # b))"
proof -
  let ?p = "a @ CHR ''/'' # b"
  have 1: "?p ! length a = CHR ''/''" by (simp add: nth_append)
  have 2: "1 \<le> length a" using assms by (cases a) simp_all
  have 3: "length a < length ?p" by simp
  have "length a \<in> set (filter (\<lambda>i. ?p ! i = CHR ''/'') [1..<length ?p])"
    using 1 2 3 by (simp del: length_append)
  then have "take (length a) ?p \<in> set (ancestors ?p)"
    unfolding ancestors_def set_map by (rule imageI)
  then show ?thesis by simp
qed

text \<open>
  C7, as the code has it. For each clip the directory converter makes a directory named
  \<open>{sanitized-base-name}-{timestamp}\<close> in the output directory; below it come \<open>train\<close>, then
  the slot, which is always named \<open>video1\<close>, then \<open>img1\<close>. The label file is written inside
  \<open>video1\<close>, beside \<open>img1\<close>.
\<close>

theorem mp4_layout:
  assumes ok: "mp4_clip E input_dir output_dir file_name s = (Inr (), s')"
  defines "R \<equiv> mp4_root E output_dir file_name s"
  shows "R = path_join output_dir
               (sanitized file_name @ ''-'' @ strftime ''%Y%m%d-%H%M%S'' (now E (ticks s)))
       \<and> R \<in> dirs (fs s')
       \<and> R @ ''/train'' \<in> dirs (fs s')
       \<and> R @ ''/train/video1'' \<in> dirs (fs s')
       \<and> R @ ''/train/video1/img1'' \<in> dirs (fs s')
       \<and> (\<exists>fps n.
             files (fs s') (R @ ''/train/video1/Labels-GameState.json'')
               = Some (json_dumps E (labels_data (sanitized file_name) fps n))
           \<and> console s' = console s @
               [Processing_video (path_join input_dir file_name), Detected_FPS fps,
                Frames_extracted_to (R @ ''/train/video1/img1''),
                Total_frames_extracted n, Creating_labels,
                Labels_created (R @ ''/train/video1/Labels-GameState.json'')])"
proof -
  have d: "dirs (fs s') =
     dirs (fs s)
     \<union> set (ancestors R) \<union> {R}
     \<union> set (ancestors (R @ ''/train'')) \<union> {R @ ''/train''}
     \<union> set (ancestors (R @ ''/train/video1/img1'')) \<union> {R @ ''/train/video1/img1''}"
    using mp4_clip_dirs[of E input_dir output_dir file_name s] ok
    by (simp add: mp4_paths R_def)
  have "R @ ''/train/video1'' \<in> set (ancestors ((R @ ''/train/video1'') @ CHR ''/'' # ''img1''))"
    by (rule ancestors_prefix) simp
  then have v: "R @ ''/train/video1'' \<in> set (ancestors (R @ ''/train/video1/img1''))"
    by simp
  from mp4_clip_success[OF ok] obtain fps n where
    "files (fs s') (R @ ''/train/video1/Labels-GameState.json'')
        = Some (json_dumps E (labels_data (sanitized file_name) fps n))"
    "console s' = console s @
        [Processing_video (path_join input_dir file_name), Detected_FPS fps,
         Frames_extracted_to (R @ ''/train/video1/img1''),
         Total_frames_extracted n, Creating_labels,
         Labels_created (R @ ''/train/video1/Labels-GameState.json'')]"
    unfolding mp4_paths R_def by blast
  then have "\<exists>fps n.
             files (fs s') (R @ ''/train/video1/Labels-GameState.json'')
               = Some (json_dumps E (labels_data (sanitized file_name) fps n))
           \<and> console s' = console s @
               [Processing_video (path_join input_dir file_name), Detected_FPS fps,
                Frames_extracted_to (R @ ''/train/video1/img1''),
                Total_frames_extracted n, Creating_labels,
                Labels_created (R @ ''/train/video1/Labels-GameState.json'')]"
    by blast
  moreover have "R \<in> dirs (fs s')" "R @ ''/train'' \<in> dirs (fs s')"
    "R @ ''/train/video1'' \<in> dirs (fs s')" "R @ ''/train/video1/img1'' \<in> dirs (fs s')"
    using v unfolding d by simp_all
  moreover have "R = path_join output_dir
               (sanitized file_name @ ''-'' @ strftime ''%Y%m%d-%H%M%S'' (now E (ticks s)))"
    by (simp add: R_def mp4_root_def)
  ultimately show ?thesis by blast
qed

subsection \<open>A failing clip ends the batch\<close>




subsection \<open>The small world\<close>

lemma demo_names:
  "endswith_any (py_lower ''Match One.MP4'') mp4_extensions"
  "endswith_any (py_lower ''broken.mp4'') mp4_extensions"
  "endswith_any (py_lower ''short.webm'') mp4_extensions"
  "\<not> endswith_any (py_lower ''notes.txt'') mp4_extensions"
  "path_join ''in'' ''Match One.MP4'' = ''in/Match One.MP4''"
  "path_join ''in'' ''broken.mp4'' = ''in/broken.mp4''"
  "path_join ''in'' ''short.webm'' = ''in/short.webm''"
  by (simp_all add: endswith_any_def endswith_def py_lower_def lower_char_def
      mp4_extensions_def path_join_def)

lemma demo_fps_ok:
  "fst (get_video_fps (demo_env l) ''in/Match One.MP4'' t) = Inr (30000 / 1001)"
proof -
  have s1: "py_strip (''30000/1001'' @ [CHR 0x0A]) = str_nat 30000 @ ''/'' @ str_nat 1001"
    by (simp add: py_strip_def is_space_def digits_eval)
  have d: "0 < (1001::nat)" by simp
  from get_video_fps_of_ratio[of "demo_env l" "''in/Match One.MP4''", OF demo_probe(1) d s1]
  show ?thesis by simp
qed


lemma demo_raster:
  "fst (subprocess_run (demo_env l) (raster_cmd ''in/Match One.MP4'' folder) f) = 0"
  "fst (subprocess_run (demo_env l) (raster_cmd ''in/short.webm'' folder) f) = 1"
  by (simp_all add: demo_env_def demo_run_def raster_cmd_def Let_def)

lemma demo_extract_ok:
  "fst (extract_frames (demo_env l) ''in/Match One.MP4'' folder t) = Inr ()"
  by (simp add: extract_frames_fst demo_raster)

lemma demo_root:
  "ticks s = 0 \<Longrightarrow>
   mp4_root (demo_env l) ''out'' ''Match One.MP4'' s = ''out/match-one-20250102-030405''"
proof -
  have a: "sanitized ''Match One.MP4'' = ''match-one''"
    by (simp add: sanitized_def splitext_def rfind_def py_replace_def py_lower_def
        lower_char_def)
  have b: "strftime ''%Y%m%d-%H%M%S'' (demo_now 0) = ''20250102-030405''"
    by (simp add: strftime.simps directive_def demo_now_def digits_eval)
  assume "ticks s = 0"
  then show ?thesis
    by (simp add: mp4_root_def a b demo_env_def path_join_def)
qed

lemma demo_clip_ok:
  "fst (mp4_clip (demo_env l) ''in'' ''out'' ''Match One.MP4'' s) = Inr ()"
  by (rule mp4_clip_ok[where fps = "30000 / 1001"])
     (simp_all add: demo_names demo_fps_ok demo_extract_ok)

theorem mp4_layout_witness:
  "fst (mp4_clip (demo_env []) ''in'' ''out'' ''Match One.MP4'' demo_state) = Inr ()
   \<and> ''out/match-one-20250102-030405/train/video1/img1''
       \<in> dirs (fs (snd (mp4_clip (demo_env []) ''in'' ''out'' ''Match One.MP4'' demo_state)))
   \<and> files (fs (snd (mp4_clip (demo_env []) ''in'' ''out'' ''Match One.MP4'' demo_state)))
       ''out/match-one-20250102-030405/train/video1/Labels-GameState.json'' \<noteq> None"
proof -
  let ?r = "mp4_clip (demo_env []) ''in'' ''out'' ''Match One.MP4'' demo_state"
  have ok: "?r = (Inr (), snd ?r)"
    using demo_clip_ok[of "[]" demo_state] by (cases ?r) simp
  have t: "ticks demo_state = 0" by (simp add: demo_state_def)
  from mp4_layout[OF ok] show ?thesis
    using demo_clip_ok[of "[]" demo_state] by (auto simp: demo_root[OF t])
qed

lemma mp4_main_single:
  assumes "\<And>f. listdir E f i = [p, q]"
    and "endswith_any (py_lower p) mp4_extensions"
    and "\<not> endswith_any (py_lower q) mp4_extensions"
  shows "fs (snd (mp4_main E i o' s)) = fs (snd (mp4_clip E i o' p (makedirs o' s)))"
  using assms
  by (simp add: mp4_main_def Let_def case_prod_beta sum.case_eq_if py_print_frame)

text \<open>
  C7, as the specification has it, fails: after the conversion of \<open>Match One.MP4\<close> the only
  directory below a \<open>train\<close> directory is \<open>video1\<close>; the directory carrying the name of the
  clip and the time is the one above \<open>train\<close>.
\<close>

theorem mp4_slot_name_counterexample:
  "dirs (fs (snd (mp4_main (demo_env [''Match One.MP4'', ''notes.txt'']) ''in'' ''out'' demo_state)))
     = {''in'', ''out'', ''out/match-one-20250102-030405'',
        ''out/match-one-20250102-030405/train'',
        ''out/match-one-20250102-030405/train/video1'',
        ''out/match-one-20250102-030405/train/video1/img1''}
   \<and> files (fs (snd (mp4_main (demo_env [''Match One.MP4'', ''notes.txt'']) ''in'' ''out''
        demo_state)))
       ''out/match-one-20250102-030405/train/video1/Labels-GameState.json'' \<noteq> None
   \<and> ''out/train/match-one-20250102-030405''
       \<notin> dirs (fs (snd (mp4_main (demo_env [''Match One.MP4'', ''notes.txt'']) ''in'' ''out''
             demo_state)))"
proof -
  let ?E = "demo_env [''Match One.MP4'', ''notes.txt'']"
  let ?s = "makedirs ''out'' demo_state"
  let ?r = "mp4_clip ?E ''in'' ''out'' ''Match One.MP4'' ?s"
  have m: "fs (snd (mp4_main ?E ''in'' ''out'' demo_state)) = fs (snd ?r)"
    by (rule mp4_main_single[where q = "''notes.txt''"])
       (simp_all add: demo_env_def demo_names)
  have t: "ticks ?s = 0" by (simp add: demo_state_def makedirs_frame)
  have ok: "?r = (Inr (), snd ?r)"
    using demo_clip_ok[of "[''Match One.MP4'', ''notes.txt'']" ?s] by (cases ?r) simp
  have an: "ancestors ''out'' = []"
    "ancestors ''out/match-one-20250102-030405'' = [''out'']"
    "ancestors ''out/match-one-20250102-030405/train'' = [''out'', ''out/match-one-20250102-030405'']"
    "ancestors ''out/match-one-20250102-030405/train/video1/img1'' =
       [''out'', ''out/match-one-20250102-030405'', ''out/match-one-20250102-030405/train'',
        ''out/match-one-20250102-030405/train/video1'']"
    by (simp_all add: ancestors_def upt_rec[of "numeral _"] upt_rec[of "Suc _"] upt_rec[of 1])
  have d: "dirs (fs (snd ?r)) = {''in'', ''out'', ''out/match-one-20250102-030405'',
        ''out/match-one-20250102-030405/train'',
        ''out/match-one-20250102-030405/train/video1'',
        ''out/match-one-20250102-030405/train/video1/img1''}"
    unfolding mp4_clip_dirs demo_root[OF t] 
    by (auto simp: makedirs_frame demo_state_def path_join_def an)
  from mp4_clip_success[OF ok] have f: "files (fs (snd ?r))
       ''out/match-one-20250102-030405/train/video1/Labels-GameState.json'' \<noteq> None"
    by (auto simp: demo_root[OF t] path_join_def)
  show ?thesis unfolding m using d f by simp
qed








end
